theory Spec2Isabelle
  imports Main "HOL-Library.Char_ord" "HOL-Library.List_Lexorder"
begin

section \<open>Values shared by the server's handlers\<close>

text \<open>
  A Go \<^verbatim>\<open>error\<close> is modelled by the text that \<^verbatim>\<open>%v\<close> prints for it. A fallible call
  of the source returns \<open>go_error + 'a\<close>, with \<open>Inl\<close> for the error.
\<close>

type_synonym go_error = string

text \<open>
  The bodies handed to \<^verbatim>\<open>json.Marshal\<close> and \<^verbatim>\<open>json.NewEncoder(w).Encode\<close> are maps of
  strings, integers and slices, for which marshalling cannot fail. A JSON object keeps
  its fields in the order of the source's map literal.
\<close>

datatype json =
    JNull
  | JString string
  | JNumber int
  | JArray "json list"
  | JObject "(string \<times> json) list"

text \<open>
  A Go slice is either \<^verbatim>\<open>nil\<close> (\<open>None\<close>) or allocated (\<open>Some xs\<close>);
  \<^verbatim>\<open>append\<close> allocates a nil slice. \<^verbatim>\<open>encoding/json\<close> writes a nil slice as
  \<^verbatim>\<open>null\<close> and an allocated one as an array.
\<close>

type_synonym 'a slice = "'a list option"

fun go_append :: "'a slice \<Rightarrow> 'a \<Rightarrow> 'a slice" where
  "go_append None x = Some [x]"
| "go_append (Some xs) x = Some (xs @ [x])"

fun go_items :: "'a slice \<Rightarrow> 'a list" where
  "go_items None = []"
| "go_items (Some xs) = xs"

fun json_of_slice :: "('a \<Rightarrow> json) \<Rightarrow> 'a slice \<Rightarrow> json" where
  "json_of_slice f None = JNull"
| "json_of_slice f (Some xs) = JArray (map f xs)"

subsection \<open>Strings and paths\<close>

text \<open>\<^verbatim>\<open>strings.Split(s, "/")\<close>: the pieces between separators, never an empty list.\<close>

fun strings_Split :: "string \<Rightarrow> char \<Rightarrow> string list" where
  "strings_Split [] sep = [[]]"
| "strings_Split (x # xs) sep =
     (if x = sep then [] # strings_Split xs sep
      else (case strings_Split xs sep of
              [] \<Rightarrow> [[x]]
            | p # ps \<Rightarrow> (x # p) # ps))"

definition strings_HasPrefix :: "string \<Rightarrow> string \<Rightarrow> bool" where
  "strings_HasPrefix s pre = (take (length pre) s = pre)"

definition strings_HasSuffix :: "string \<Rightarrow> string \<Rightarrow> bool" where
  "strings_HasSuffix s suf =
     (length suf \<le> length s \<and> drop (length s - length suf) s = suf)"

definition strings_TrimSuffix :: "string \<Rightarrow> string \<Rightarrow> string" where
  "strings_TrimSuffix s suf =
     (if strings_HasSuffix s suf then take (length s - length suf) s else s)"

fun strings_Join :: "string list \<Rightarrow> string \<Rightarrow> string" where
  "strings_Join [] sep = []"
| "strings_Join [p] sep = p"
| "strings_Join (p # q # ps) sep = p @ sep @ strings_Join (q # ps) sep"

text \<open>
  \<^verbatim>\<open>filepath.Join\<close> joins the non-empty elements with a slash and cleans the result:
  empty and \<^verbatim>\<open>.\<close> components go, \<^verbatim>\<open>..\<close> removes the component before it. Every call
  of the source has the literal \<^verbatim>\<open>"repos"\<close> as first element, so the path is relative;
  \<open>clean_parts\<close> keeps the cleaned components, latest first.
\<close>

fun clean_parts :: "string list \<Rightarrow> string list \<Rightarrow> string list" where
  "clean_parts acc [] = rev acc"
| "clean_parts acc (p # ps) =
     (if p = [] \<or> p = ''.'' then clean_parts acc ps
      else if p = ''..'' then
        (case acc of
           [] \<Rightarrow> clean_parts [''..''] ps
         | a # as \<Rightarrow> if a = ''..'' then clean_parts (''..'' # acc) ps
                    else clean_parts as ps)
      else clean_parts (p # acc) ps)"

definition filepath_Join :: "string \<Rightarrow> string \<Rightarrow> string" where
  "filepath_Join a b =
     (let joined = strings_Join (filter (\<lambda>e. e \<noteq> []) [a, b]) ''/''
      in if joined = [] then []
         else (case clean_parts [] (strings_Split joined CHR ''/'') of
                 [] \<Rightarrow> ''.''
               | cs \<Rightarrow> strings_Join cs ''/''))"

subsection \<open>Decimal fields of a timestamp\<close>

definition digit_char :: "nat \<Rightarrow> char" where
  "digit_char d = ''0123456789'' ! d"

fun decimal :: "nat \<Rightarrow> string" where
  "decimal n = (if n < 10 then [digit_char n] else decimal (n div 10) @ [digit_char (n mod 10)])"

declare decimal.simps [simp del]

text \<open>Go's \<^verbatim>\<open>appendInt(b, x, width)\<close>: decimal digits, zero-padded on the left.\<close>

definition appendInt :: "nat \<Rightarrow> nat \<Rightarrow> string" where
  "appendInt x width = replicate (width - length (decimal x)) CHR ''0'' @ decimal x"

text \<open>
  The author time of a commit as \<^verbatim>\<open>time.Time\<close> holds it: the wall-clock fields in the
  signature's own zone, the zone's offset in seconds east of UTC and the zone's
  abbreviation (empty for the fixed zones that go-git builds from a signature). Git
  timestamps are whole seconds.
\<close>

record timestamp =
  Year :: nat
  Month :: nat
  Day :: nat
  Hour :: nat
  Minute :: nat
  Second :: nat
  Offset :: int
  Zone :: string

definition date_part :: "timestamp \<Rightarrow> string" where
  "date_part t = appendInt (Year t) 4 @ ''-'' @ appendInt (Month t) 2 @ ''-'' @ appendInt (Day t) 2"

definition clock_part :: "timestamp \<Rightarrow> string" where
  "clock_part t =
     appendInt (Hour t) 2 @ '':'' @ appendInt (Minute t) 2 @ '':'' @ appendInt (Second t) 2"

text \<open>
  Go turns the offset into minutes with its truncating division and takes the sign
  of the minutes: \<^verbatim>\<open>offset / 60 < 0\<close> holds from \<open>- 60\<close> seconds downwards.
\<close>

definition offset_sign :: "int \<Rightarrow> string" where
  "offset_sign off = (if off \<le> - 60 then ''-'' else ''+'')"

definition offset_minutes :: "int \<Rightarrow> nat" where
  "offset_minutes off = nat (abs off) div 60"

text \<open>Layout element \<^verbatim>\<open>Z07:00\<close>: \<^verbatim>\<open>Z\<close> for UTC, otherwise sign, hours, colon, minutes.\<close>

definition zone_Z0700_colon :: "int \<Rightarrow> string" where
  "zone_Z0700_colon off =
     (if off = 0 then ''Z''
      else offset_sign off @ appendInt (offset_minutes off div 60) 2 @ '':''
             @ appendInt (offset_minutes off mod 60) 2)"

text \<open>Layout element \<^verbatim>\<open>-0700\<close>: sign, hours, minutes.\<close>

definition zone_0700 :: "int \<Rightarrow> string" where
  "zone_0700 off =
     offset_sign off @ appendInt (offset_minutes off div 60) 2
       @ appendInt (offset_minutes off mod 60) 2"

text \<open>Layout element \<^verbatim>\<open>MST\<close>: the abbreviation, or the \<^verbatim>\<open>-0700\<close> form when there is none.\<close>

definition zone_MST :: "timestamp \<Rightarrow> string" where
  "zone_MST t = (if Zone t \<noteq> [] then Zone t else zone_0700 (Offset t))"

text \<open>\<^verbatim>\<open>t.Format(time.RFC3339)\<close>, layout \<^verbatim>\<open>2006-01-02T15:04:05Z07:00\<close>.\<close>

definition Format_RFC3339 :: "timestamp \<Rightarrow> string" where
  "Format_RFC3339 t = date_part t @ ''T'' @ clock_part t @ zone_Z0700_colon (Offset t)"

text \<open>
  \<^verbatim>\<open>t.String()\<close>, layout \<^verbatim>\<open>2006-01-02 15:04:05.999999999 -0700 MST\<close>; the fraction is
  not printed when it is zero.
\<close>

definition time_String :: "timestamp \<Rightarrow> string" where
  "time_String t =
     date_part t @ '' '' @ clock_part t @ '' '' @ zone_0700 (Offset t) @ '' '' @ zone_MST t"

section \<open>The repository as go-git presents it\<close>

record file_stat =
  Name :: string
  Addition :: int
  Deletion :: int

record signature =
  sig_Name :: string
  Email :: string
  When :: timestamp

text \<open>
  A commit object: \<open>Hash\<close> is the hex text of \<^verbatim>\<open>c.Hash.String()\<close>, \<open>Stats\<close> the outcome
  of \<^verbatim>\<open>c.Stats()\<close>, the diff against the parent.
\<close>

record commit =
  Hash :: string
  Author :: signature
  Message :: string
  Stats :: "go_error + file_stat list"

record reference =
  ref_Name :: string
  ref_Hash :: string

text \<open>
  \<^verbatim>\<open>ReferenceName.IsBranch\<close> tests the prefix \<^verbatim>\<open>refs/heads/\<close>. \<^verbatim>\<open>ReferenceName.Short\<close>
  removes the longest of the prefixes \<^verbatim>\<open>refs/heads/\<close>, \<^verbatim>\<open>refs/tags/\<close>,
  \<^verbatim>\<open>refs/remotes/\<close> and \<^verbatim>\<open>refs/\<close> that the name has. The source calls it on
  branch names only, so go-git's further rule for the \<^verbatim>\<open>HEAD\<close> of a remote is left
  out.
\<close>

definition IsBranch :: "string \<Rightarrow> bool" where
  "IsBranch n = strings_HasPrefix n ''refs/heads/''"

definition Short :: "string \<Rightarrow> string" where
  "Short n =
     (if strings_HasPrefix n ''refs/heads/'' then drop (length ''refs/heads/'') n
      else if strings_HasPrefix n ''refs/tags/'' then drop (length ''refs/tags/'') n
      else if strings_HasPrefix n ''refs/remotes/'' then drop (length ''refs/remotes/'') n
      else if strings_HasPrefix n ''refs/'' then drop (length ''refs/'') n
      else n)"

text \<open>
  What one handler call observes of an opened repository: \<^verbatim>\<open>repo.Head()\<close>,
  \<^verbatim>\<open>repo.References()\<close> with the references in the order the store's iterator yields
  them, and \<^verbatim>\<open>repo.Log(&git.LogOptions{From: h})\<close>, whose iterator yields, step by step,
  a commit or the error of reading one.
\<close>

record repository =
  Head :: "go_error + reference"
  References :: "go_error + reference list"
  Log :: "string \<Rightarrow> go_error + (go_error + commit) list"

text \<open>
  go-git's \<^verbatim>\<open>CommitIter.ForEach(cb)\<close> calls \<^verbatim>\<open>Next\<close> until the iterator is exhausted, returns
  the first error of \<^verbatim>\<open>Next\<close> at once, and otherwise runs the callback on the commit.
  Every callback of the source returns \<^verbatim>\<open>nil\<close>, so a callback is a change of the
  state it captures.
\<close>

fun ForEach :: "(go_error + 'a) list \<Rightarrow> ('a \<Rightarrow> 's \<Rightarrow> 's) \<Rightarrow> 's \<Rightarrow> 's \<times> go_error option" where
  "ForEach [] cb s = (s, None)"
| "ForEach (Inl err # rest) cb s = (s, Some err)"
| "ForEach (Inr c # rest) cb s = ForEach rest cb (cb c s)"

text \<open>
  The local storage and the remotes. \<open>dirs p\<close> is \<open>None\<close> when nothing exists at path
  \<open>p\<close>, and otherwise what \<^verbatim>\<open>git.PlainOpen(p)\<close> returns; \<open>remote url\<close> is what fetching
  \<open>url\<close> gives; \<open>clone_log\<close> records the path of every \<^verbatim>\<open>git.PlainClone\<close> call, in
  call order.
\<close>

record world =
  dirs :: "string \<Rightarrow> (go_error + repository) option"
  remote :: "string \<Rightarrow> go_error + repository"
  clone_log :: "string list"

text \<open>\<^verbatim>\<open>_, err := os.Stat(p); os.IsNotExist(err)\<close>\<close>

definition stat_IsNotExist :: "world \<Rightarrow> string \<Rightarrow> bool" where
  "stat_IsNotExist wd p = (dirs wd p = None)"

definition PlainOpen :: "world \<Rightarrow> string \<Rightarrow> go_error + repository" where
  "PlainOpen wd p =
     (case dirs wd p of
        None \<Rightarrow> Inl ''repository does not exist''
      | Some r \<Rightarrow> r)"

text \<open>
  \<^verbatim>\<open>git.PlainClone(p, false, &git.CloneOptions{URL: url})\<close> refuses a path that is
  already there, removes what it created when the fetch fails, and leaves the
  repository at \<open>p\<close> when it succeeds.
\<close>

definition PlainClone :: "world \<Rightarrow> string \<Rightarrow> string \<Rightarrow> (go_error + repository) \<times> world" where
  "PlainClone wd p url =
     (let wd' = wd\<lparr>clone_log := clone_log wd @ [p]\<rparr>
      in if dirs wd p \<noteq> None then (Inl ''repository already exists'', wd')
         else (case remote wd url of
                 Inl err \<Rightarrow> (Inl err, wd')
               | Inr repo \<Rightarrow> (Inr repo, wd'\<lparr>dirs := (dirs wd)(p \<mapsto> Inr repo)\<rparr>)))"

section \<open>The event sink\<close>

text \<open>
  The \<^verbatim>\<open>http.ResponseWriter\<close> of one request. \<open>attempted\<close> holds every event that
  \<^verbatim>\<open>sendSSEMessage\<close> wrote, \<open>delivered\<close> those whose write reached the consumer.
  \<open>credit\<close> is the consumer: \<open>None\<close> stays connected, \<open>Some k\<close> takes \<open>k\<close> more events
  and is gone afterwards, so that every later write fails.
\<close>

type_synonym sse_event = "string \<times> json"

record response_writer =
  header :: "(string \<times> string) list"
  http_error :: "(nat \<times> string) option"
  attempted :: "sse_event list"
  delivered :: "sse_event list"
  credit :: "nat option"

definition Header_Set :: "response_writer \<Rightarrow> string \<Rightarrow> string \<Rightarrow> response_writer" where
  "Header_Set w k v = w\<lparr>header := (k, v) # filter (\<lambda>kv. fst kv \<noteq> k) (header w)\<rparr>"

definition http_Error :: "response_writer \<Rightarrow> string \<Rightarrow> nat \<Rightarrow> response_writer" where
  "http_Error w msg code = w\<lparr>http_error := Some (code, msg)\<rparr>"

text \<open>
  \<^verbatim>\<open>sendSSEMessage\<close> marshals the body, writes the \<^verbatim>\<open>event:\<close> and \<^verbatim>\<open>data:\<close> lines and
  flushes. It returns nothing and drops the results of both \<^verbatim>\<open>fmt.Fprintf\<close> calls: a
  write to a consumer that is gone changes nothing but the count of attempts.
\<close>

definition sendSSEMessage :: "response_writer \<Rightarrow> string \<Rightarrow> json \<Rightarrow> response_writer" where
  "sendSSEMessage w eventType data =
     (case credit w of
        None \<Rightarrow> w\<lparr>attempted := attempted w @ [(eventType, data)],
                  delivered := delivered w @ [(eventType, data)]\<rparr>
      | Some 0 \<Rightarrow> w\<lparr>attempted := attempted w @ [(eventType, data)]\<rparr>
      | Some (Suc k) \<Rightarrow> w\<lparr>attempted := attempted w @ [(eventType, data)],
                          delivered := delivered w @ [(eventType, data)],
                          credit := Some k\<rparr>)"

section \<open>The ingestion handler of \<^verbatim>\<open>server/main.go\<close>\<close>

record request =
  Method :: string
  decoded_RepoURL :: "string option"

text \<open>The body of a \<^verbatim>\<open>status\<close>, \<^verbatim>\<open>error\<close> or \<^verbatim>\<open>complete\<close> event.\<close>

definition message_body :: "string \<Rightarrow> json" where
  "message_body m = JObject [(''message'', JString m)]"

definition message_repoId :: "string \<Rightarrow> string \<Rightarrow> json" where
  "message_repoId m repoID = JObject [(''message'', JString m), (''repoId'', JString repoID)]"

definition message_repoUrl :: "string \<Rightarrow> string \<Rightarrow> json" where
  "message_repoUrl m url = JObject [(''message'', JString m), (''repoUrl'', JString url)]"

definition repoID_of :: "string \<Rightarrow> string" where
  "repoID_of url = strings_TrimSuffix (last (strings_Split url CHR ''/'')) ''.git''"

definition getBranches :: "repository \<Rightarrow> string slice \<times> go_error option" where
  "getBranches repo =
     (case References repo of
        Inl err \<Rightarrow> (None, Some err)
      | Inr refs \<Rightarrow>
          (foldl (\<lambda>branches ref.
                    if IsBranch (ref_Name ref) then go_append branches (Short (ref_Name ref))
                    else branches)
                 (Some []) refs,
           None))"

definition modification :: "file_stat \<Rightarrow> json" where
  "modification stat =
     JObject [(''file'', JString (Name stat)),
              (''additions'', JNumber (Addition stat)),
              (''deletions'', JNumber (Deletion stat))]"

text \<open>The body of the callback of \<^verbatim>\<open>iter.ForEach\<close> up to the send.\<close>

definition commitData :: "commit \<Rightarrow> json" where
  "commitData c =
     (let base = [(''hash'', JString (Hash c)),
                  (''author'', JString (sig_Name (Author c))),
                  (''email'', JString (Email (Author c))),
                  (''message'', JString (Message c)),
                  (''date'', JString (Format_RFC3339 (When (Author c))))]
      in case Stats c of
           Inr stats \<Rightarrow> JObject (base @ [(''modifications'', JArray (map modification stats))])
         | Inl err \<Rightarrow> JObject base)"

text \<open>Line 74: the existence check that chooses between cloning and opening.\<close>

definition check_missing :: "world \<Rightarrow> string \<Rightarrow> bool" where
  "check_missing wd repoPath = stat_IsNotExist wd repoPath"

text \<open>
  Lines 75 to 108, after the check: clone or open, with the status events. The
  repository is \<open>None\<close> where the handler returns.
\<close>

definition materialize ::
  "bool \<Rightarrow> world \<Rightarrow> string \<Rightarrow> string \<Rightarrow> response_writer
     \<Rightarrow> response_writer \<times> world \<times> repository option" where
  "materialize missing wd url repoID w =
     (let repoPath = filepath_Join ''repos'' repoID
      in if missing then
           (let w1 = sendSSEMessage w ''status'' (message_repoUrl ''Cloning repository'' url)
            in case PlainClone wd repoPath url of
                 (Inl err, wd') \<Rightarrow>
                   (sendSSEMessage w1 ''error'' (message_body (''Clone failed: '' @ err)), wd', None)
               | (Inr repo, wd') \<Rightarrow>
                   (sendSSEMessage w1 ''status''
                      (message_repoId ''Repository cloned successfully'' repoID), wd', Some repo))
         else
           (let w1 = sendSSEMessage w ''status''
                       (message_repoId ''Repository already exists, opening existing repository'' repoID)
            in case PlainOpen wd repoPath of
                 Inl err \<Rightarrow>
                   (sendSSEMessage w1 ''error''
                      (message_body (''Failed to open repository: '' @ err)), wd, None)
               | Inr repo \<Rightarrow> (w1, wd, Some repo)))"

text \<open>Lines 110 to 180: head, branches, the walk and the closing events.\<close>

definition stream_repo :: "repository \<Rightarrow> string \<Rightarrow> response_writer \<Rightarrow> response_writer" where
  "stream_repo repo repoID w =
     (case Head repo of
        Inl err \<Rightarrow>
          sendSSEMessage w ''error'' (message_body (''Failed to get HEAD reference: '' @ err))
      | Inr ref \<Rightarrow>
          (let w1 = sendSSEMessage w ''status'' (message_body ''Fetching branches'');
               w2 = (case getBranches repo of
                       (branches, Some err) \<Rightarrow>
                         sendSSEMessage w1 ''error''
                           (message_body (''Failed to get branches: '' @ err))
                     | (branches, None) \<Rightarrow>
                         sendSSEMessage w1 ''branches'' (json_of_slice JString branches));
               w3 = sendSSEMessage w2 ''status'' (message_body ''Fetching commits history'')
           in case Log repo (ref_Hash ref) of
                Inl err \<Rightarrow>
                  sendSSEMessage w3 ''error''
                    (message_body (''Failed to get commit logs: '' @ err))
              | Inr iter \<Rightarrow>
                  (case ForEach iter (\<lambda>c w'. sendSSEMessage w' ''commit'' (commitData c)) w3 of
                     (w4, err) \<Rightarrow>
                       (let w5 = (case err of
                                    Some e \<Rightarrow>
                                      sendSSEMessage w4 ''error''
                                        (message_body (''Error processing commits: '' @ e))
                                  | None \<Rightarrow> w4)
                        in sendSSEMessage w5 ''complete''
                             (message_repoId ''Repository analysis complete'' repoID)))))"

definition RepoHandler :: "world \<Rightarrow> request \<Rightarrow> response_writer \<Rightarrow> response_writer \<times> world" where
  "RepoHandler wd r w =
     (if Method r \<noteq> ''POST'' then (http_Error w ''Only POST method is allowed'' 405, wd)
      else case decoded_RepoURL r of
             None \<Rightarrow> (http_Error w ''Invalid request payload'' 400, wd)
           | Some url \<Rightarrow>
               (let repoID = repoID_of url;
                    wh = Header_Set (Header_Set (Header_Set (Header_Set w
                           ''Content-Type'' ''text/event-stream'')
                           ''Cache-Control'' ''no-cache'')
                           ''Connection'' ''keep-alive'')
                           ''Access-Control-Allow-Origin'' ''*'';
                    repoPath = filepath_Join ''repos'' repoID;
                    w0 = sendSSEMessage wh ''status''
                           (message_repoId ''Starting repository processing'' repoID)
                in case materialize (check_missing wd repoPath) wd url repoID w0 of
                     (w1, wd', None) \<Rightarrow> (w1, wd')
                   | (w1, wd', Some repo) \<Rightarrow> (stream_repo repo repoID w1, wd')))"

section \<open>The snapshot handlers of \<^verbatim>\<open>server/handlers/handler.go\<close>\<close>

datatype http_response =
    HttpError nat string
  | JsonBody json

definition getRepo :: "world \<Rightarrow> string \<Rightarrow> go_error + (repository \<times> reference)" where
  "getRepo wd refID =
     (case PlainOpen wd (filepath_Join ''repos'' refID) of
        Inl err \<Rightarrow> Inl err
      | Inr repo \<Rightarrow>
          (case Head repo of
             Inl err \<Rightarrow> Inl err
           | Inr ref \<Rightarrow> Inr (repo, ref)))"

definition commit_entry :: "commit \<Rightarrow> json" where
  "commit_entry c =
     JObject [(''hash'', JString (Hash c)),
              (''author'', JString (sig_Name (Author c))),
              (''date'', JString (time_String (When (Author c)))),
              (''message'', JString (Message c))]"

definition CommitsHandler :: "world \<Rightarrow> string \<Rightarrow> http_response" where
  "CommitsHandler wd repoID =
     (case getRepo wd repoID of
        Inl err \<Rightarrow> HttpError 500 err
      | Inr (repo, ref) \<Rightarrow>
          (case Log repo (ref_Hash ref) of
             Inl err \<Rightarrow> HttpError 500 err
           | Inr iter \<Rightarrow>
               (case ForEach iter (\<lambda>c commits. go_append commits (commit_entry c)) None of
                  (commits, err) \<Rightarrow> JsonBody (json_of_slice (\<lambda>j. j) commits))))"

definition BranchesHandler :: "world \<Rightarrow> string \<Rightarrow> http_response" where
  "BranchesHandler wd repoID =
     (case getRepo wd repoID of
        Inl err \<Rightarrow> HttpError 500 err
      | Inr (repo, ref) \<Rightarrow>
          (case References repo of
             Inl err \<Rightarrow> HttpError 500 err
           | Inr refs \<Rightarrow>
               JsonBody (json_of_slice JString
                 (foldl (\<lambda>branches ref.
                           if IsBranch (ref_Name ref)
                           then go_append branches (Short (ref_Name ref))
                           else branches)
                        (Some []) refs))))"

section \<open>Two requests on one storage\<close>

text \<open>
  \<^verbatim>\<open>net/http\<close> runs every request on a goroutine of its own, and the handlers share
  nothing but the \<^verbatim>\<open>repos\<close> directory. The acquisition of \<^verbatim>\<open>RepoHandler\<close> touches that
  directory twice: the check of line 74, then the clone or the open that the check
  chose. An acquisition value is one request between these two accesses; a schedule says which of
  two requests moves next (\<open>False\<close> the first, \<open>True\<close> the second).
\<close>

datatype acquisition =
    Start response_writer
  | Checked bool response_writer
  | Finished response_writer "repository option"

fun acquire_step :: "string \<Rightarrow> world \<Rightarrow> acquisition \<Rightarrow> world \<times> acquisition" where
  "acquire_step url wd (Start w) =
     (wd, Checked (check_missing wd (filepath_Join ''repos'' (repoID_of url))) w)"
| "acquire_step url wd (Checked missing w) =
     (case materialize missing wd url (repoID_of url) w of
        (w', wd', repo) \<Rightarrow> (wd', Finished w' repo))"
| "acquire_step url wd (Finished w repo) = (wd, Finished w repo)"

fun interleave :: "string \<Rightarrow> string \<Rightarrow> bool list \<Rightarrow> world \<times> acquisition \<times> acquisition \<Rightarrow> world \<times> acquisition \<times> acquisition" where
  "interleave url1 url2 [] st = st"
| "interleave url1 url2 (False # sched) (wd, t1, t2) =
     (case acquire_step url1 wd t1 of (wd', t1') \<Rightarrow> interleave url1 url2 sched (wd', t1', t2))"
| "interleave url1 url2 (True # sched) (wd, t1, t2) =
     (case acquire_step url2 wd t2 of (wd', t2') \<Rightarrow> interleave url1 url2 sched (wd', t1, t2'))"

text \<open>The handle a request holds when its acquisition is over.\<close>

fun handle_of :: "acquisition \<Rightarrow> repository option" where
  "handle_of (Finished w repo) = repo"
| "handle_of t = None"

section \<open>Vocabulary of the properties\<close>

text \<open>The events that one call of \<^verbatim>\<open>RepoHandler\<close> writes to its sink, in order.\<close>

definition emitted :: "world \<Rightarrow> request \<Rightarrow> response_writer \<Rightarrow> sse_event list" where
  "emitted wd r w = drop (length (attempted w)) (attempted (fst (RepoHandler wd r w)))"

definition is_commit :: "sse_event \<Rightarrow> bool" where
  "is_commit e = (fst e = ''commit'')"

definition is_terminal :: "sse_event \<Rightarrow> bool" where
  "is_terminal e = (fst e = ''complete'' \<or> fst e = ''error'')"

definition commit_event :: "commit \<Rightarrow> sse_event" where
  "commit_event c = (''commit'', commitData c)"

definition complete_event :: "string \<Rightarrow> sse_event" where
  "complete_event repoID = (''complete'', message_repoId ''Repository analysis complete'' repoID)"

text \<open>The commits an iterator hands to the callback, and the error that ends the walk.\<close>

fun yielded :: "(go_error + 'a) list \<Rightarrow> 'a list" where
  "yielded [] = []"
| "yielded (Inl err # rest) = []"
| "yielded (Inr c # rest) = c # yielded rest"

fun walk_error :: "(go_error + 'a) list \<Rightarrow> go_error option" where
  "walk_error [] = None"
| "walk_error (Inl err # rest) = Some err"
| "walk_error (Inr c # rest) = walk_error rest"

text \<open>The repository that the acquisition of a request for \<open>url\<close> ends with.\<close>

definition acquired :: "world \<Rightarrow> string \<Rightarrow> repository option" where
  "acquired wd url =
     (case dirs wd (filepath_Join ''repos'' (repoID_of url)) of
        None \<Rightarrow> (case remote wd url of Inl err \<Rightarrow> None | Inr repo \<Rightarrow> Some repo)
      | Some (Inl err) \<Rightarrow> None
      | Some (Inr repo) \<Rightarrow> Some repo)"

definition branch_listing_failed :: "world \<Rightarrow> string \<Rightarrow> bool" where
  "branch_listing_failed wd url =
     (case acquired wd url of
        None \<Rightarrow> False
      | Some repo \<Rightarrow>
          (case Head repo of
             Inl err \<Rightarrow> False
           | Inr ref \<Rightarrow> (case References repo of Inl err \<Rightarrow> True | Inr refs \<Rightarrow> False)))"

definition walk_failed :: "world \<Rightarrow> string \<Rightarrow> bool" where
  "walk_failed wd url =
     (case acquired wd url of
        None \<Rightarrow> False
      | Some repo \<Rightarrow>
          (case Head repo of
             Inl err \<Rightarrow> False
           | Inr ref \<Rightarrow>
               (case Log repo (ref_Hash ref) of
                  Inl err \<Rightarrow> False
                | Inr iter \<Rightarrow> walk_error iter \<noteq> None)))"

subsection \<open>The sink as a sequence of sends\<close>

fun send_all :: "response_writer \<Rightarrow> sse_event list \<Rightarrow> response_writer" where
  "send_all w [] = w"
| "send_all w (e # es) = send_all (sendSSEMessage w (fst e) (snd e)) es"

definition closing_events :: "(go_error + commit) list \<Rightarrow> string \<Rightarrow> sse_event list" where
  "closing_events iter repoID =
     (case walk_error iter of
        Some e \<Rightarrow> [(''error'', message_body (''Error processing commits: '' @ e))]
      | None \<Rightarrow> [])
     @ [complete_event repoID]"

definition branch_event :: "repository \<Rightarrow> sse_event" where
  "branch_event repo =
     (case getBranches repo of
        (branches, Some err) \<Rightarrow> (''error'', message_body (''Failed to get branches: '' @ err))
      | (branches, None) \<Rightarrow> (''branches'', json_of_slice JString branches))"

definition stream_events :: "repository \<Rightarrow> string \<Rightarrow> sse_event list" where
  "stream_events repo repoID =
     (case Head repo of
        Inl err \<Rightarrow> [(''error'', message_body (''Failed to get HEAD reference: '' @ err))]
      | Inr ref \<Rightarrow>
          [(''status'', message_body ''Fetching branches''), branch_event repo,
           (''status'', message_body ''Fetching commits history'')]
          @ (case Log repo (ref_Hash ref) of
               Inl err \<Rightarrow> [(''error'', message_body (''Failed to get commit logs: '' @ err))]
             | Inr iter \<Rightarrow> map commit_event (yielded iter) @ closing_events iter repoID))"

definition acquire_events :: "world \<Rightarrow> string \<Rightarrow> sse_event list" where
  "acquire_events wd url =
     (case dirs wd (filepath_Join ''repos'' (repoID_of url)) of
        None \<Rightarrow>
          [(''status'', message_repoUrl ''Cloning repository'' url),
           (case remote wd url of
              Inl err \<Rightarrow> (''error'', message_body (''Clone failed: '' @ err))
            | Inr repo \<Rightarrow>
                (''status'', message_repoId ''Repository cloned successfully'' (repoID_of url)))]
      | Some opened \<Rightarrow>
          (''status'',
           message_repoId ''Repository already exists, opening existing repository''
             (repoID_of url))
          # (case opened of
               Inl err \<Rightarrow> [(''error'', message_body (''Failed to open repository: '' @ err))]
             | Inr repo \<Rightarrow> []))"

definition session_events :: "world \<Rightarrow> string \<Rightarrow> sse_event list" where
  "session_events wd url =
     (''status'', message_repoId ''Starting repository processing'' (repoID_of url))
     # acquire_events wd url
     @ (case acquired wd url of
          None \<Rightarrow> []
        | Some repo \<Rightarrow> stream_events repo (repoID_of url))"

text \<open>The response writer after the four \<^verbatim>\<open>w.Header().Set\<close> calls of lines 59 to 62.\<close>

definition session_headers :: "response_writer \<Rightarrow> response_writer" where
  "session_headers w =
     Header_Set (Header_Set (Header_Set (Header_Set w
       ''Content-Type'' ''text/event-stream'')
       ''Cache-Control'' ''no-cache'')
       ''Connection'' ''keep-alive'')
       ''Access-Control-Allow-Origin'' ''*''"

section \<open>Sample repositories\<close>

definition sample_time :: timestamp where
  "sample_time =
     \<lparr>Year = 2024, Month = 3, Day = 5, Hour = 14, Minute = 7, Second = 9,
      Offset = 19800, Zone = []\<rparr>"

definition sample_commit :: "string \<Rightarrow> string \<Rightarrow> go_error + file_stat list \<Rightarrow> commit" where
  "sample_commit h msg st =
     \<lparr>Hash = h,
      Author = \<lparr>sig_Name = ''Ada'', Email = ''ada@example.com'', When = sample_time\<rparr>,
      Message = msg, Stats = st\<rparr>"

definition commit_C :: commit where
  "commit_C = sample_commit ''c3'' ''third''
     (Inr [\<lparr>Name = ''README.md'', Addition = 3, Deletion = 1\<rparr>])"

definition commit_B :: commit where
  "commit_B = sample_commit ''b2'' ''second'' (Inl ''object not found'')"

definition commit_A :: commit where
  "commit_A = sample_commit ''a1'' ''first'' (Inr [])"

definition sample_refs :: "reference list" where
  "sample_refs =
     [\<lparr>ref_Name = ''HEAD'', ref_Hash = ''c3''\<rparr>,
      \<lparr>ref_Name = ''refs/heads/main'', ref_Hash = ''c3''\<rparr>,
      \<lparr>ref_Name = ''refs/tags/v1'', ref_Hash = ''a1''\<rparr>,
      \<lparr>ref_Name = ''refs/remotes/origin/main'', ref_Hash = ''c3''\<rparr>,
      \<lparr>ref_Name = ''refs/heads/dev'', ref_Hash = ''b2''\<rparr>]"

definition sample_repo :: "go_error + reference list \<Rightarrow> (go_error + commit) list \<Rightarrow> repository" where
  "sample_repo refs iter =
     \<lparr>Head = Inr \<lparr>ref_Name = ''refs/heads/main'', ref_Hash = ''c3''\<rparr>,
      References = refs,
      Log = (\<lambda>h. if h = ''c3'' then Inr iter else Inl ''object not found'')\<rparr>"

definition sample_url :: string where
  "sample_url = ''https://example.com/ada/demo.git''"

definition sample_request :: request where
  "sample_request = \<lparr>Method = ''POST'', decoded_RepoURL = Some sample_url\<rparr>"

text \<open>A storage that holds \<open>repo\<close> under \<^verbatim>\<open>repos/demo\<close>, and one that holds nothing yet.\<close>

definition stored_world :: "repository \<Rightarrow> world" where
  "stored_world repo =
     \<lparr>dirs = (\<lambda>p. if p = ''repos/demo'' then Some (Inr repo) else None),
      remote = (\<lambda>u. Inl ''repository not found''),
      clone_log = []\<rparr>"

definition empty_world :: "repository \<Rightarrow> world" where
  "empty_world repo =
     \<lparr>dirs = (\<lambda>p. None),
      remote = (\<lambda>u. if u = sample_url then Inr repo else Inl ''repository not found''),
      clone_log = []\<rparr>"

definition fresh_writer :: "nat option \<Rightarrow> response_writer" where
  "fresh_writer k = \<lparr>header = [], http_error = None, attempted = [], delivered = [], credit = k\<rparr>"

section \<open>The handler as a sequence of sends\<close>

text \<open>\<^verbatim>\<open>parts[len(parts)-1]\<close> of line 57 never indexes an empty slice.\<close>

lemma strings_Split_nonempty: "strings_Split s sep \<noteq> []"
  by (induction s) (simp_all split: list.splits)

lemma ForEach_yielded:
  "ForEach items cb s = (foldl (\<lambda>s c. cb c s) s (yielded items), walk_error items)"
  by (induction items cb s rule: ForEach.induct) simp_all

lemma send_all_append: "send_all w (es @ fs) = send_all (send_all w es) fs"
  by (induction es arbitrary: w) simp_all

lemma foldl_send:
  "foldl (\<lambda>w c. sendSSEMessage w t (f c)) w cs = send_all w (map (\<lambda>c. (t, f c)) cs)"
  by (induction cs arbitrary: w) simp_all

lemma commit_event_fun: "(\<lambda>c. (''commit'', commitData c)) = commit_event"
  by (simp add: fun_eq_iff commit_event_def)

lemma stream_repo_send_all: "stream_repo repo repoID w = send_all w (stream_events repo repoID)"
  by (simp add: stream_repo_def stream_events_def branch_event_def closing_events_def
      commit_event_fun complete_event_def
      ForEach_yielded foldl_send send_all_append Let_def
      split: sum.splits option.splits prod.splits)

lemma attempted_send_all: "attempted (send_all w es) = attempted w @ es"
  by (induction es arbitrary: w) (simp_all add: sendSSEMessage_def split: option.splits nat.splits)

lemma delivered_send_all_connected:
  "credit w = None \<Longrightarrow> delivered (send_all w es) = delivered w @ es"
  by (induction es arbitrary: w) (simp_all add: sendSSEMessage_def split: option.splits nat.splits)

lemma delivered_send_all_credit:
  "credit w = Some k \<Longrightarrow> delivered (send_all w es) = delivered w @ take k es"
proof (induction es arbitrary: w k)
  case Nil
  then show ?case by simp
next
  case (Cons e es)
  show ?case
  proof (cases k)
    case 0
    with Cons show ?thesis by (simp add: sendSSEMessage_def)
  next
    case (Suc j)
    with Cons.prems have "credit (sendSSEMessage w (fst e) (snd e)) = Some j"
      by (simp add: sendSSEMessage_def)
    from Cons.IH [OF this] Suc Cons.prems show ?thesis
      by (simp add: sendSSEMessage_def)
  qed
qed

lemma materialize_writer:
  "fst (materialize (check_missing wd (filepath_Join ''repos'' (repoID_of url))) wd url (repoID_of url) w)
     = send_all w (acquire_events wd url)"
  by (simp add: materialize_def check_missing_def stat_IsNotExist_def acquire_events_def
      PlainClone_def PlainOpen_def Let_def split: sum.splits option.splits)

lemma materialize_repo:
  "snd (snd (materialize (check_missing wd (filepath_Join ''repos'' (repoID_of url))) wd url (repoID_of url) w))
     = acquired wd url"
  by (simp add: materialize_def check_missing_def stat_IsNotExist_def acquired_def
      PlainClone_def PlainOpen_def Let_def split: sum.splits option.splits)

lemma RepoHandler_send_all:
  assumes "Method r = ''POST''" and "decoded_RepoURL r = Some url"
  shows "fst (RepoHandler wd r w) = send_all (session_headers w) (session_events wd url)"
proof -
  obtain w1 wd' repo where m:
    "materialize (check_missing wd (filepath_Join ''repos'' (repoID_of url))) wd url (repoID_of url)
       (sendSSEMessage (session_headers w) ''status''
          (message_repoId ''Starting repository processing'' (repoID_of url))) = (w1, wd', repo)"
    by (metis prod_cases3)
  from materialize_writer [of wd url] materialize_repo [of wd url] m
  have w1: "w1 = send_all (sendSSEMessage (session_headers w) ''status''
          (message_repoId ''Starting repository processing'' (repoID_of url))) (acquire_events wd url)"
    and repo: "repo = acquired wd url"
    by (metis fst_conv, metis snd_conv)
  show ?thesis
    using assms m
    by (simp add: RepoHandler_def session_headers_def [symmetric] Let_def session_events_def
        stream_repo_send_all send_all_append w1 repo [symmetric] split: option.splits)
qed

lemma attempted_session_headers: "attempted (session_headers w) = attempted w"
  and delivered_session_headers: "delivered (session_headers w) = delivered w"
  and credit_session_headers: "credit (session_headers w) = credit w"
  by (simp_all add: session_headers_def Header_Set_def)

lemma emitted_session:
  assumes "Method r = ''POST''" and "decoded_RepoURL r = Some url"
  shows "emitted wd r w = session_events wd url"
  by (simp add: emitted_def RepoHandler_send_all [OF assms] attempted_send_all
      attempted_session_headers)

lemma yielded_map_Inr: "yielded (map Inr cs) = cs"
  by (induction cs) simp_all

lemma walk_error_map_Inr: "walk_error (map Inr cs) = None"
  by (induction cs) simp_all

lemma yielded_broken: "yielded (map Inr cs @ Inl err # rest) = cs"
  by (induction cs) simp_all

lemma walk_error_broken: "walk_error (map Inr cs @ Inl err # rest) = Some err"
  by (induction cs) simp_all

lemma filter_commit_events: "filter is_commit (map commit_event cs) = map commit_event cs"
  by (induction cs) (simp_all add: is_commit_def commit_event_def)

lemma branch_event_kind:
  "fst (branch_event repo) = (if snd (getBranches repo) = None then ''branches'' else ''error'')"
  by (simp add: branch_event_def split: prod.splits option.splits)

lemma acquire_events_no_commit: "filter is_commit (acquire_events wd url) = []"
  by (simp add: acquire_events_def is_commit_def split: option.splits sum.splits)

lemma acquire_events_no_complete: "filter (\<lambda>e. fst e = ''complete'') (acquire_events wd url) = []"
  by (simp add: acquire_events_def split: option.splits sum.splits)

lemma session_events_walk:
  assumes "acquired wd url = Some repo" and "Head repo = Inr ref"
    and "Log repo (ref_Hash ref) = Inr iter"
  shows "session_events wd url =
     ((''status'', message_repoId ''Starting repository processing'' (repoID_of url))
       # acquire_events wd url
       @ [(''status'', message_body ''Fetching branches''), branch_event repo,
          (''status'', message_body ''Fetching commits history'')])
     @ map commit_event (yielded iter) @ closing_events iter (repoID_of url)"
  using assms by (simp add: session_events_def stream_events_def)

section \<open>The ingestion stream\<close>

lemma sample_repoID: "repoID_of sample_url = ''demo''"
  by (simp add: repoID_of_def sample_url_def strings_TrimSuffix_def strings_HasSuffix_def)

lemma sample_repoPath: "filepath_Join ''repos'' ''demo'' = ''repos/demo''"
  by (simp add: filepath_Join_def)

lemma acquired_stored: "acquired (stored_world repo) sample_url = Some repo"
  by (simp add: acquired_def stored_world_def sample_repoID sample_repoPath)

lemma sample_emitted:
  "emitted wd sample_request w = session_events wd sample_url"
  by (rule emitted_session) (simp_all add: sample_request_def)

lemma acquire_events_stored:
  "acquire_events (stored_world repo) sample_url =
     [(''status'',
       message_repoId ''Repository already exists, opening existing repository'' ''demo'')]"
  by (simp add: acquire_events_def stored_world_def sample_repoID sample_repoPath)

lemma emitted_stored:
  "emitted (stored_world repo) sample_request w =
     [(''status'', message_repoId ''Starting repository processing'' ''demo''),
      (''status'',
       message_repoId ''Repository already exists, opening existing repository'' ''demo'')]
     @ stream_events repo ''demo''"
  by (simp add: sample_emitted session_events_def acquire_events_stored acquired_stored
      sample_repoID)

lemmas sample_session_simps =
  emitted_stored stream_events_def
  sample_repo_def branch_event_def getBranches_def closing_events_def
  complete_event_def

text \<open>
  Claim C1, as the code has it. The session emits one commit event for every commit
  that the walk from the head reference hands over before it ends or meets its first
  read failure, in the iterator's order, and no other commit event: an unreadable
  commit is not skipped, the walk ends at it. Nothing before the commit events is a
  commit or a \<^verbatim>\<open>complete\<close> event. When the walk ends without a read failure, the
  commit events are followed by exactly one event, the \<^verbatim>\<open>complete\<close> event.
\<close>

theorem commit_events_follow_walk:
  assumes "Method r = ''POST''" and "decoded_RepoURL r = Some url"
    and "acquired wd url = Some repo" and "Head repo = Inr ref"
    and "Log repo (ref_Hash ref) = Inr iter"
  shows "filter is_commit (emitted wd r w) = map commit_event (yielded iter)
       \<and> length (filter is_commit (emitted wd r w)) = length (yielded iter)
       \<and> (\<exists>pre post. emitted wd r w = pre @ map commit_event (yielded iter) @ post
              \<and> filter is_commit pre = [] \<and> filter (\<lambda>e. fst e = ''complete'') pre = []
              \<and> filter is_commit post = []
              \<and> (walk_error iter = None \<longrightarrow> post = [complete_event (repoID_of url)]))"
proof -
  define pre where "pre =
     (''status'', message_repoId ''Starting repository processing'' (repoID_of url))
       # acquire_events wd url
       @ [(''status'', message_body ''Fetching branches''), branch_event repo,
          (''status'', message_body ''Fetching commits history'')]"
  define post where "post = closing_events iter (repoID_of url)"
  have ev: "emitted wd r w = pre @ map commit_event (yielded iter) @ post"
    using emitted_session [OF assms(1,2)] session_events_walk [OF assms(3,4,5)]
    by (simp add: pre_def post_def)
  have p1: "filter is_commit pre = []"
    using acquire_events_no_commit [of wd url]
    by (simp add: pre_def is_commit_def branch_event_kind)
  have p2: "filter (\<lambda>e. fst e = ''complete'') pre = []"
    using acquire_events_no_complete [of wd url]
    by (simp add: pre_def branch_event_kind)
  have p3: "filter is_commit post = []"
    by (simp add: post_def closing_events_def is_commit_def complete_event_def
        split: option.splits)
  have p4: "walk_error iter = None \<longrightarrow> post = [complete_event (repoID_of url)]"
    by (simp add: post_def closing_events_def)
  have c: "filter is_commit (emitted wd r w) = map commit_event (yielded iter)"
    by (simp add: ev p1 p3 filter_commit_events)
  have l: "length (filter is_commit (emitted wd r w)) = length (yielded iter)"
    by (simp add: c)
  have e: "\<exists>pre post. emitted wd r w = pre @ map commit_event (yielded iter) @ post
              \<and> filter is_commit pre = [] \<and> filter (\<lambda>e. fst e = ''complete'') pre = []
              \<and> filter is_commit post = []
              \<and> (walk_error iter = None \<longrightarrow> post = [complete_event (repoID_of url)])"
    using ev p1 p2 p3 p4 by (intro exI [of _ pre] exI [of _ post]) simp
  show ?thesis
    using c l e by (intro conjI)
qed

text \<open>
  Claim C1 as stated fails: the walk reaches three readable commits and one that
  cannot be read, between the second and the third. The session emits two commit
  events, not three, and two events follow them, \<^verbatim>\<open>error\<close> and \<^verbatim>\<open>complete\<close>.
\<close>

theorem broken_walk_loses_commit_and_ends_twice:
  "map fst
     (emitted (stored_world (sample_repo (Inr sample_refs)
                 [Inr commit_C, Inr commit_B, Inl ''object not found'', Inr commit_A]))
        sample_request (fresh_writer None))
     = [''status'', ''status'', ''status'', ''branches'', ''status'', ''commit'', ''commit'',
        ''error'', ''complete'']
   \<and> filter is_commit
       (emitted (stored_world (sample_repo (Inr sample_refs)
                   [Inr commit_C, Inr commit_B, Inl ''object not found'', Inr commit_A]))
          sample_request (fresh_writer None))
     = [commit_event commit_C, commit_event commit_B]"
  by (simp add: sample_session_simps is_commit_def)
    (simp add: commit_event_def)

theorem commit_events_follow_walk_witness:
  "filter is_commit
     (emitted (stored_world (sample_repo (Inr sample_refs)
                 [Inr commit_C, Inl ''object not found'', Inr commit_A]))
        sample_request (fresh_writer None))
     = [commit_event commit_C]
   \<and> (\<exists>pre. emitted (stored_world (sample_repo (Inr sample_refs) [Inr commit_C, Inr commit_A]))
               sample_request (fresh_writer None)
             = pre @ [commit_event commit_C, commit_event commit_A] @ [complete_event ''demo'']
           \<and> filter is_commit pre = [])"
proof -
  have r: "Method sample_request = ''POST''" "decoded_RepoURL sample_request = Some sample_url"
    by (simp_all add: sample_request_def)
  have h: "Head (sample_repo refs iter) = Inr \<lparr>ref_Name = ''refs/heads/main'', ref_Hash = ''c3''\<rparr>"
    and g: "Log (sample_repo refs iter)
              (ref_Hash \<lparr>ref_Name = ''refs/heads/main'', ref_Hash = ''c3''\<rparr>) = Inr iter"
    for refs iter
    by (simp_all add: sample_repo_def)
  have a: "filter is_commit
     (emitted (stored_world (sample_repo (Inr sample_refs)
                 [Inr commit_C, Inl ''object not found'', Inr commit_A]))
        sample_request (fresh_writer None))
     = [commit_event commit_C]"
    using commit_events_follow_walk
      [OF r acquired_stored
          h [of "Inr sample_refs" "[Inr commit_C, Inl ''object not found'', Inr commit_A]"]
          g [of "Inr sample_refs" "[Inr commit_C, Inl ''object not found'', Inr commit_A]"],
       where w = "fresh_writer None"]
    by simp
  have b: "\<exists>pre. emitted (stored_world (sample_repo (Inr sample_refs) [Inr commit_C, Inr commit_A]))
               sample_request (fresh_writer None)
             = pre @ [commit_event commit_C, commit_event commit_A] @ [complete_event ''demo'']
           \<and> filter is_commit pre = []"
    using commit_events_follow_walk
      [OF r acquired_stored
          h [of "Inr sample_refs" "[Inr commit_C, Inr commit_A]"]
          g [of "Inr sample_refs" "[Inr commit_C, Inr commit_A]"],
       where w = "fresh_writer None"]
    by (simp add: sample_repoID) blast
  show ?thesis using a b by (intro conjI)
qed

lemma no_terminal_commit_events: "filter is_terminal (map commit_event cs) = []"
  by (induction cs) (simp_all add: is_terminal_def commit_event_def)

lemma is_terminal_pair: "is_terminal (t, d) = (t = ''complete'' \<or> t = ''error'')"
  by (simp add: is_terminal_def)

lemma no_terminal_commit_comp: "filter (is_terminal \<circ> commit_event) cs = []"
  by (induction cs) (simp_all add: is_terminal_def commit_event_def)

lemma no_branches_commit_events: "filter (\<lambda>e. fst e = ''branches'') (map commit_event cs) = []"
  by (induction cs) (simp_all add: commit_event_def)

lemma session_events_nonempty: "session_events wd url \<noteq> []"
  by (simp add: session_events_def)

lemma last_closing_events: "last (closing_events iter repoID) = complete_event repoID"
  by (simp add: closing_events_def)

lemma closing_events_nonempty: "closing_events iter repoID \<noteq> []"
  by (simp add: closing_events_def)

lemma last_stream_events: "is_terminal (last (stream_events repo repoID))"
  by (simp add: stream_events_def is_terminal_def last_closing_events closing_events_nonempty
      complete_event_def split: sum.splits)

lemma stream_events_nonempty: "stream_events repo repoID \<noteq> []"
  by (simp add: stream_events_def split: sum.splits)

lemma last_session_events: "is_terminal (last (session_events wd url))"
proof (cases "acquired wd url")
  case None
  then show ?thesis
    by (auto simp add: session_events_def acquired_def acquire_events_def is_terminal_def
        split: option.splits sum.splits)
next
  case (Some repo)
  then show ?thesis
    using last_stream_events [of repo "repoID_of url"] stream_events_nonempty [of repo "repoID_of url"]
    by (simp add: session_events_def)
qed

lemma terminal_acquire_events:
  "length (filter is_terminal (acquire_events wd url)) = (if acquired wd url = None then 1 else 0)"
  by (simp add: acquire_events_def acquired_def is_terminal_def split: option.splits sum.splits)

lemma terminal_stream_events:
  assumes "\<forall>ref iter. Head repo = Inr ref \<longrightarrow> Log repo (ref_Hash ref) = Inr iter \<longrightarrow> walk_error iter = None"
  shows "length (filter is_terminal (stream_events repo repoID)) =
     (case Head repo of Inl err \<Rightarrow> 1
      | Inr ref \<Rightarrow> (case References repo of Inl err \<Rightarrow> 2 | Inr refs \<Rightarrow> 1))"
  using assms
  by (auto simp add: stream_events_def is_terminal_pair branch_event_def getBranches_def
      closing_events_def complete_event_def no_terminal_commit_comp
      split: sum.splits option.splits)

text \<open>
  Every session that passes the request checks emits at least one event, its last
  event is a \<^verbatim>\<open>complete\<close> or an \<^verbatim>\<open>error\<close> event, and a consumer that stays connected
  receives every event. When the walk meets no read failure, the events of these two
  kinds are that last event and, after a failed branch listing, the warning for it.
\<close>

lemma last_event_is_terminal:
  assumes "Method r = ''POST''" and "decoded_RepoURL r = Some url"
  shows "emitted wd r w \<noteq> [] \<and> is_terminal (last (emitted wd r w))
       \<and> (credit w = None \<longrightarrow>
            delivered (fst (RepoHandler wd r w)) = delivered w @ emitted wd r w)
       \<and> (\<not> walk_failed wd url \<longrightarrow>
            length (filter is_terminal (emitted wd r w)) =
              (if branch_listing_failed wd url then 2 else 1))"
proof -
  have ev: "emitted wd r w = session_events wd url"
    by (rule emitted_session [OF assms])
  have d: "credit w = None \<Longrightarrow>
      delivered (fst (RepoHandler wd r w)) = delivered w @ emitted wd r w"
    by (simp add: ev RepoHandler_send_all [OF assms] delivered_send_all_connected
        credit_session_headers delivered_session_headers)
  have n: "length (filter is_terminal (session_events wd url)) =
      (if branch_listing_failed wd url then 2 else 1)" if nf: "\<not> walk_failed wd url"
  proof (cases "acquired wd url")
    case None
    then show ?thesis
      using terminal_acquire_events [of wd url]
      by (simp add: session_events_def branch_listing_failed_def is_terminal_def)
  next
    case (Some repo)
    from nf Some have "\<forall>ref iter. Head repo = Inr ref \<longrightarrow> Log repo (ref_Hash ref) = Inr iter
        \<longrightarrow> walk_error iter = None"
      by (auto simp add: walk_failed_def)
    from terminal_stream_events [OF this, of "repoID_of url"] Some show ?thesis
      using terminal_acquire_events [of wd url]
      by (simp add: session_events_def branch_listing_failed_def is_terminal_def
          split: sum.splits)
  qed
  show ?thesis
    using d n by (simp add: ev session_events_nonempty last_session_events)
qed


text \<open>
  Claim C2 at a walk that fails. The iterator hands over one commit and then reports
  that the next one cannot be read. The handler sends the \<^verbatim>\<open>error\<close> event of line 172
  and, having no \<^verbatim>\<open>return\<close> there, goes on to send \<^verbatim>\<open>complete\<close>: the session has two
  closing events, and the \<^verbatim>\<open>error\<close> event is not the last one. The error path next to
  it, a failing \<^verbatim>\<open>repo.Log\<close>, returns after its \<^verbatim>\<open>error\<close> event, as the three before it
  do.
\<close>

theorem failed_walk_sends_error_then_complete:
  "drop 5 (emitted (stored_world (sample_repo (Inr sample_refs)
                      [Inr commit_C, Inl ''object not found'']))
             sample_request (fresh_writer None))
     = [commit_event commit_C,
        (''error'', message_body ''Error processing commits: object not found''),
        (''complete'', message_repoId ''Repository analysis complete'' ''demo'')]
   \<and> drop 5 (emitted (stored_world
                       ((sample_repo (Inr sample_refs) [])\<lparr>Log := \<lambda>h. Inl ''object not found''\<rparr>))
               sample_request (fresh_writer None))
     = [(''error'', message_body ''Failed to get commit logs: object not found'')]"
  by (simp add: sample_session_simps)

text \<open>
  Claim C4, as the code has it. \<^verbatim>\<open>sendSSEMessage\<close> does not report a failed write, so
  the handler writes the same events whether or not the consumer is there: every
  commit of the walk is still visited and its event written, then the closing events.
  Of these, a consumer that takes \<open>k\<close> events and disconnects receives the first \<open>k\<close>.
\<close>

theorem failed_send_is_ignored:
  assumes "Method r = ''POST''" and "decoded_RepoURL r = Some url"
  shows "emitted wd r w = emitted wd r (w\<lparr>credit := None\<rparr>)
       \<and> (\<forall>k. credit w = Some k \<longrightarrow>
             delivered (fst (RepoHandler wd r w)) = delivered w @ take k (emitted wd r w))"
  by (simp add: emitted_session [OF assms] RepoHandler_send_all [OF assms]
      delivered_send_all_credit credit_session_headers delivered_session_headers)

lemma attempted_fresh:
  "attempted (fst (RepoHandler wd r (fresh_writer k))) = emitted wd r (fresh_writer k)"
  by (simp add: emitted_def fresh_writer_def)

lemma delivered_fresh:
  "delivered (fst (RepoHandler wd sample_request (fresh_writer (Some k)))) =
     take k (emitted wd sample_request (fresh_writer (Some k)))"
proof -
  have r: "Method sample_request = ''POST''" "decoded_RepoURL sample_request = Some sample_url"
    by (simp_all add: sample_request_def)
  show ?thesis
    by (simp add: emitted_session [OF r] RepoHandler_send_all [OF r]
        delivered_send_all_credit [of _ k] credit_session_headers delivered_session_headers
        fresh_writer_def)
qed

text \<open>
  Claim C4 as stated fails: the consumer takes six events, the last of them the first
  commit event, and is gone. The handler goes on to write the two remaining commit
  events and the \<^verbatim>\<open>complete\<close> event.
\<close>

theorem walk_continues_after_failed_send:
  "map fst (delivered (fst (RepoHandler
       (stored_world (sample_repo (Inr sample_refs) [Inr commit_C, Inr commit_B, Inr commit_A]))
       sample_request (fresh_writer (Some 6)))))
     = [''status'', ''status'', ''status'', ''branches'', ''status'', ''commit'']
   \<and> drop 6 (attempted (fst (RepoHandler
       (stored_world (sample_repo (Inr sample_refs) [Inr commit_C, Inr commit_B, Inr commit_A]))
       sample_request (fresh_writer (Some 6)))))
     = [commit_event commit_B, commit_event commit_A, complete_event ''demo'']"
  by (simp add: attempted_fresh delivered_fresh sample_session_simps)
    (simp add: commit_event_def)

theorem failed_send_is_ignored_witness:
  "emitted (stored_world (sample_repo (Inr sample_refs) [Inr commit_C, Inr commit_B]))
     sample_request (fresh_writer (Some 6))
   = emitted (stored_world (sample_repo (Inr sample_refs) [Inr commit_C, Inr commit_B]))
       sample_request (fresh_writer None)
   \<and> delivered (fst (RepoHandler
         (stored_world (sample_repo (Inr sample_refs) [Inr commit_C, Inr commit_B]))
         sample_request (fresh_writer (Some 6))))
     = take 6 (emitted (stored_world (sample_repo (Inr sample_refs) [Inr commit_C, Inr commit_B]))
         sample_request (fresh_writer (Some 6)))"
  using failed_send_is_ignored
    [of sample_request sample_url
        "stored_world (sample_repo (Inr sample_refs) [Inr commit_C, Inr commit_B])"
        "fresh_writer (Some 6)"]
  by (simp add: sample_request_def fresh_writer_def)

text \<open>
  Claim C5, as the code has it. When reading a commit fails during the walk, the walk
  stops there: the commit events are exactly those of the commits read before the
  failure, in order, and an \<^verbatim>\<open>error\<close> event that reports the failure comes right after
  the last of them. No commit behind the unreadable one is emitted.
\<close>

theorem walk_stops_at_unreadable_commit:
  assumes "Method r = ''POST''" and "decoded_RepoURL r = Some url"
    and "acquired wd url = Some repo" and "Head repo = Inr ref"
    and "Log repo (ref_Hash ref) = Inr (map Inr cs @ Inl err # rest)"
  shows "filter is_commit (emitted wd r w) = map commit_event cs
       \<and> (\<exists>pre post. emitted wd r w =
              pre @ map commit_event cs
                @ (''error'', message_body (''Error processing commits: '' @ err)) # post
            \<and> filter is_commit pre = [] \<and> filter is_commit post = [])"
proof -
  define pre where "pre =
     (''status'', message_repoId ''Starting repository processing'' (repoID_of url))
       # acquire_events wd url
       @ [(''status'', message_body ''Fetching branches''), branch_event repo,
          (''status'', message_body ''Fetching commits history'')]"
  have ev: "emitted wd r w = pre @ map commit_event cs
      @ (''error'', message_body (''Error processing commits: '' @ err))
      # [complete_event (repoID_of url)]"
    using emitted_session [OF assms(1,2)] session_events_walk [OF assms(3,4,5)]
    by (simp add: pre_def yielded_broken walk_error_broken closing_events_def)
  have p1: "filter is_commit pre = []"
    using acquire_events_no_commit [of wd url]
    by (simp add: pre_def is_commit_def branch_event_kind)
  have p2: "filter is_commit [complete_event (repoID_of url)] = []"
    by (simp add: is_commit_def complete_event_def)
  have c: "filter is_commit (emitted wd r w) = map commit_event cs"
    by (simp add: ev p1 filter_commit_events) (simp add: is_commit_def complete_event_def)
  show ?thesis
    using c ev p1 p2 by blast
qed

text \<open>
  Claim C5 as stated fails: the second commit of a walk of three cannot be read. The
  only commit event is the first commit's; the third commit, which is readable, has
  none.
\<close>

theorem later_commit_is_lost:
  "filter is_commit
     (emitted (stored_world (sample_repo (Inr sample_refs)
                 [Inr commit_C, Inl ''object not found'', Inr commit_A]))
        sample_request (fresh_writer None))
     = [commit_event commit_C]
   \<and> commit_event commit_A \<noteq> commit_event commit_C"
  by (simp add: sample_session_simps is_commit_def)
    (simp add: commit_event_def commitData_def commit_A_def commit_C_def sample_commit_def)

theorem walk_stops_at_unreadable_commit_witness:
  "filter is_commit
     (emitted (stored_world (sample_repo (Inr sample_refs)
                 (map Inr [commit_C, commit_B] @ Inl ''object not found'' # [Inr commit_A])))
        sample_request (fresh_writer None))
     = map commit_event [commit_C, commit_B]"
  using walk_stops_at_unreadable_commit
    [of sample_request sample_url
        "stored_world (sample_repo (Inr sample_refs)
           (map Inr [commit_C, commit_B] @ Inl ''object not found'' # [Inr commit_A]))"
        "sample_repo (Inr sample_refs)
           (map Inr [commit_C, commit_B] @ Inl ''object not found'' # [Inr commit_A])"
        "\<lparr>ref_Name = ''refs/heads/main'', ref_Hash = ''c3''\<rparr>"
        "[commit_C, commit_B]" "''object not found''" "[Inr commit_A]" "fresh_writer None"]
  by (simp add: sample_request_def acquired_stored sample_repo_def)


lemma commitData_without_stats:
  "Stats c = Inl err \<Longrightarrow>
   commitData c =
     JObject [(''hash'', JString (Hash c)),
              (''author'', JString (sig_Name (Author c))),
              (''email'', JString (Email (Author c))),
              (''message'', JString (Message c)),
              (''date'', JString (Format_RFC3339 (When (Author c))))]"
  by (simp add: commitData_def)

text \<open>
  Claim C6. A commit whose \<^verbatim>\<open>Stats\<close> call fails still has its commit event, at its
  place in the walk; the event carries the five commit fields and no \<^verbatim>\<open>modifications\<close>
  field, hence no file statistics. The events of the commits after it follow, and the
  session ends with \<^verbatim>\<open>complete\<close>.
\<close>

theorem commit_without_stats_is_emitted:
  assumes "Method r = ''POST''" and "decoded_RepoURL r = Some url"
    and "acquired wd url = Some repo" and "Head repo = Inr ref"
    and "Log repo (ref_Hash ref) = Inr (map Inr (before @ c # after))"
    and "Stats c = Inl err"
  shows "\<exists>pre. emitted wd r w =
            pre @ map commit_event before
              @ (''commit'',
                 JObject [(''hash'', JString (Hash c)),
                          (''author'', JString (sig_Name (Author c))),
                          (''email'', JString (Email (Author c))),
                          (''message'', JString (Message c)),
                          (''date'', JString (Format_RFC3339 (When (Author c))))])
              # map commit_event after @ [complete_event (repoID_of url)]
          \<and> filter is_commit pre = []"
proof -
  define pre where "pre =
     (''status'', message_repoId ''Starting repository processing'' (repoID_of url))
       # acquire_events wd url
       @ [(''status'', message_body ''Fetching branches''), branch_event repo,
          (''status'', message_body ''Fetching commits history'')]"
  note s = session_events_walk
    [OF assms(3,4,5), unfolded yielded_map_Inr walk_error_map_Inr closing_events_def]
  have ev: "emitted wd r w = pre @ map commit_event (before @ c # after)
      @ [complete_event (repoID_of url)]"
    by (simp add: emitted_session [OF assms(1,2)] s pre_def)
  have p1: "filter is_commit pre = []"
    using acquire_events_no_commit [of wd url]
    by (simp add: pre_def is_commit_def branch_event_kind)
  have "commit_event c = (''commit'',
                 JObject [(''hash'', JString (Hash c)),
                          (''author'', JString (sig_Name (Author c))),
                          (''email'', JString (Email (Author c))),
                          (''message'', JString (Message c)),
                          (''date'', JString (Format_RFC3339 (When (Author c))))])"
    using commitData_without_stats [OF assms(6)] by (simp add: commit_event_def)
  with ev p1 show ?thesis by auto
qed

theorem commit_without_stats_is_emitted_witness:
  "\<exists>pre. emitted (stored_world (sample_repo (Inr sample_refs)
                     (map Inr ([commit_C] @ commit_B # [commit_A]))))
            sample_request (fresh_writer None) =
          pre @ map commit_event [commit_C]
            @ (''commit'',
               JObject [(''hash'', JString ''b2''),
                        (''author'', JString ''Ada''),
                        (''email'', JString ''ada@example.com''),
                        (''message'', JString ''second''),
                        (''date'', JString (Format_RFC3339 sample_time))])
            # map commit_event [commit_A] @ [complete_event ''demo'']
        \<and> filter is_commit pre = []"
  using commit_without_stats_is_emitted
    [of sample_request sample_url
        "stored_world (sample_repo (Inr sample_refs) (map Inr ([commit_C] @ commit_B # [commit_A])))"
        "sample_repo (Inr sample_refs) (map Inr ([commit_C] @ commit_B # [commit_A]))"
        "\<lparr>ref_Name = ''refs/heads/main'', ref_Hash = ''c3''\<rparr>"
        "[commit_C]" commit_B "[commit_A]" "''object not found''" "fresh_writer None"]
  by (simp add: sample_request_def acquired_stored sample_repo_def sample_repoID
      commit_B_def sample_commit_def)

text \<open>
  Claim C7. When the references cannot be read, \<^verbatim>\<open>getBranches\<close> returns a nil slice
  with the error, the session emits the \<^verbatim>\<open>error\<close> event for branches and no \<^verbatim>\<open>branches\<close>
  event, and then goes on: the status event, one commit event per commit of the walk,
  and \<^verbatim>\<open>complete\<close>.
\<close>

theorem branch_failure_is_not_fatal:
  assumes "Method r = ''POST''" and "decoded_RepoURL r = Some url"
    and "acquired wd url = Some repo" and "Head repo = Inr ref"
    and "References repo = Inl err"
    and "Log repo (ref_Hash ref) = Inr (map Inr cs)"
  shows "getBranches repo = (None, Some err)
       \<and> go_items (fst (getBranches repo)) = []
       \<and> filter (\<lambda>e. fst e = ''branches'') (emitted wd r w) = []
       \<and> (\<exists>pre. emitted wd r w =
              pre @ [(''error'', message_body (''Failed to get branches: '' @ err)),
                     (''status'', message_body ''Fetching commits history'')]
                @ map commit_event cs @ [complete_event (repoID_of url)])"
proof -
  have g: "getBranches repo = (None, Some err)"
    using assms(5) by (simp add: getBranches_def)
  have b: "branch_event repo = (''error'', message_body (''Failed to get branches: '' @ err))"
    by (simp add: branch_event_def g)
  have ev: "emitted wd r w =
      ((''status'', message_repoId ''Starting repository processing'' (repoID_of url))
       # acquire_events wd url @ [(''status'', message_body ''Fetching branches'')])
      @ [(''error'', message_body (''Failed to get branches: '' @ err)),
         (''status'', message_body ''Fetching commits history'')]
      @ map commit_event cs @ [complete_event (repoID_of url)]"
    using emitted_session [OF assms(1,2)] session_events_walk [OF assms(3,4,6)]
    by (simp add: b yielded_map_Inr walk_error_map_Inr closing_events_def)
  have a: "filter (\<lambda>e. fst e = ''branches'') (acquire_events wd url) = []"
    by (simp add: acquire_events_def split: option.splits sum.splits)
  have n: "filter (\<lambda>e. fst e = ''branches'') (emitted wd r w) = []"
    by (simp add: ev a no_branches_commit_events) (simp add: complete_event_def)
  show ?thesis
    using g n ev by (metis fst_conv go_items.simps(1))
qed

theorem branch_failure_is_not_fatal_witness:
  "getBranches (sample_repo (Inl ''permission denied'') (map Inr [commit_C, commit_A]))
     = (None, Some ''permission denied'')
   \<and> filter (\<lambda>e. fst e = ''branches'')
       (emitted (stored_world (sample_repo (Inl ''permission denied'') (map Inr [commit_C, commit_A])))
          sample_request (fresh_writer None)) = []"
  using branch_failure_is_not_fatal
    [of sample_request sample_url
        "stored_world (sample_repo (Inl ''permission denied'') (map Inr [commit_C, commit_A]))"
        "sample_repo (Inl ''permission denied'') (map Inr [commit_C, commit_A])"
        "\<lparr>ref_Name = ''refs/heads/main'', ref_Hash = ''c3''\<rparr>"
        "''permission denied''" "[commit_C, commit_A]" "fresh_writer None"]
  by (simp add: sample_request_def acquired_stored sample_repo_def)

lemma foldl_branches:
  "foldl (\<lambda>branches ref.
            if IsBranch (ref_Name ref) then go_append branches (Short (ref_Name ref))
            else branches) (Some acc) refs
   = Some (acc @ map (drop (length ''refs/heads/''))
                   (filter (\<lambda>n. strings_HasPrefix n ''refs/heads/'') (map ref_Name refs)))"
  by (induction refs arbitrary: acc) (simp_all add: IsBranch_def Short_def)

lemma getBranches_listed:
  "References repo = Inr refs \<Longrightarrow>
   getBranches repo =
     (Some (map (drop (length ''refs/heads/''))
              (filter (\<lambda>n. strings_HasPrefix n ''refs/heads/'') (map ref_Name refs))), None)"
  using foldl_branches [of "[]" refs] by (simp add: getBranches_def)

lemma branches_of_stream:
  "Head repo = Inr ref \<Longrightarrow> snd (getBranches repo) = None \<Longrightarrow>
   filter (\<lambda>e. fst e = ''branches'') (stream_events repo repoID) = [branch_event repo]"
  by (simp add: stream_events_def branch_event_kind closing_events_def complete_event_def
      no_branches_commit_events split: sum.splits option.splits)

lemma branches_of_acquire: "filter (\<lambda>e. fst e = ''branches'') (acquire_events wd url) = []"
  by (simp add: acquire_events_def split: option.splits sum.splits)

text \<open>
  Claim C8, as the code has it. The branch names of \<^verbatim>\<open>getBranches\<close>, of the
  \<^verbatim>\<open>branches\<close> event and of \<^verbatim>\<open>BranchesHandler\<close> are the names of the references under
  \<^verbatim>\<open>refs/heads/\<close>, without that prefix and with nothing else (no tag, no remote-tracking
  reference, no \<^verbatim>\<open>HEAD\<close>), in the order in which the reference store yields them.
  Nothing sorts them.
\<close>

theorem branches_in_store_order:
  assumes "References repo = Inr refs"
    and "names = map (drop (length ''refs/heads/''))
                   (filter (\<lambda>n. strings_HasPrefix n ''refs/heads/'') (map ref_Name refs))"
  shows "getBranches repo = (Some names, None)
       \<and> (\<forall>ref. getRepo wd repoID = Inr (repo, ref) \<longrightarrow>
             BranchesHandler wd repoID = JsonBody (JArray (map JString names)))
       \<and> (\<forall>ref url. Method r = ''POST'' \<and> decoded_RepoURL r = Some url
             \<and> acquired wd url = Some repo \<and> Head repo = Inr ref \<longrightarrow>
             filter (\<lambda>e. fst e = ''branches'') (emitted wd r w)
               = [(''branches'', JArray (map JString names))])"
proof -
  have g: "getBranches repo = (Some names, None)"
    using getBranches_listed [OF assms(1)] assms(2) by simp
  have h: "BranchesHandler wd repoID = JsonBody (JArray (map JString names))"
    if "getRepo wd repoID = Inr (repo, ref)" for ref
    using that foldl_branches [of "[]" refs] assms
    by (simp add: BranchesHandler_def)
  have s: "filter (\<lambda>e. fst e = ''branches'') (emitted wd r w)
               = [(''branches'', JArray (map JString names))]"
    if "Method r = ''POST''" "decoded_RepoURL r = Some url"
       "acquired wd url = Some repo" "Head repo = Inr ref" for ref url
    using that branches_of_stream [of repo ref "repoID_of url"] branches_of_acquire [of wd url]
    by (simp add: emitted_session session_events_def g branch_event_def)
  show ?thesis using g h s by blast
qed

lemma getRepo_stored:
  "getRepo (stored_world (sample_repo refs iter)) ''demo''
     = Inr (sample_repo refs iter, \<lparr>ref_Name = ''refs/heads/main'', ref_Hash = ''c3''\<rparr>)"
  by (simp add: getRepo_def PlainOpen_def stored_world_def sample_repoPath)
    (simp add: sample_repo_def)

text \<open>
  Claim C8 as stated fails: a store that yields \<^verbatim>\<open>refs/heads/main\<close> before
  \<^verbatim>\<open>refs/heads/dev\<close> gets the names \<^verbatim>\<open>main\<close>, \<^verbatim>\<open>dev\<close>, which is not the lexicographic
  order.
\<close>

theorem branches_not_sorted:
  "fst (getBranches (sample_repo (Inr sample_refs) [])) = Some [''main'', ''dev'']
   \<and> BranchesHandler (stored_world (sample_repo (Inr sample_refs) [])) ''demo''
       = JsonBody (JArray [JString ''main'', JString ''dev''])
   \<and> \<not> sorted [''main'', ''dev'']"
  by (simp add: getBranches_def BranchesHandler_def getRepo_stored)
    (simp add: sample_repo_def sample_refs_def IsBranch_def Short_def strings_HasPrefix_def)

theorem branches_in_store_order_witness:
  "getBranches (sample_repo (Inr sample_refs) []) = (Some [''main'', ''dev''], None)
   \<and> BranchesHandler (stored_world (sample_repo (Inr sample_refs) [])) ''demo''
       = JsonBody (JArray (map JString [''main'', ''dev'']))
   \<and> filter (\<lambda>e. fst e = ''branches'')
        (emitted (stored_world (sample_repo (Inr sample_refs) [])) sample_request (fresh_writer None))
       = [(''branches'', JArray (map JString [''main'', ''dev'']))]"
  using branches_in_store_order
    [of "sample_repo (Inr sample_refs) []" sample_refs "[''main'', ''dev'']"
        "stored_world (sample_repo (Inr sample_refs) [])" "''demo''" sample_request
        "fresh_writer None"]
  by (simp add: getRepo_stored acquired_stored sample_request_def)
    (simp add: sample_repo_def sample_refs_def strings_HasPrefix_def)


lemma decimal_digit: "n < 10 \<Longrightarrow> decimal n = [digit_char n]"
  by (simp add: decimal.simps)

lemma decimal_step: "10 \<le> n \<Longrightarrow> decimal n = decimal (n div 10) @ [digit_char (n mod 10)]"
  by (subst decimal.simps) simp

lemma sample_time_String: "time_String sample_time = ''2024-03-05 14:07:09 +0530 +0530''"
  by (simp add: time_String_def sample_time_def date_part_def clock_part_def zone_0700_def
      zone_MST_def offset_sign_def offset_minutes_def appendInt_def decimal_step decimal_digit
      digit_char_def)

lemma sample_time_RFC3339: "Format_RFC3339 sample_time = ''2024-03-05T14:07:09+05:30''"
  by (simp add: Format_RFC3339_def sample_time_def date_part_def clock_part_def
      zone_Z0700_colon_def offset_sign_def offset_minutes_def appendInt_def decimal_step
      decimal_digit digit_char_def)

lemma time_String_not_RFC3339: "time_String t \<noteq> Format_RFC3339 t"
  by (simp add: time_String_def Format_RFC3339_def)

text \<open>
  Claim C9 at the commit-listing endpoint. For a commit made at 14:07:09 on
  2024-03-05 in a zone five and a half hours east of UTC, \<^verbatim>\<open>CommitsHandler\<close> answers
  with the date in the layout of \<^verbatim>\<open>Time.String\<close>, which is not the RFC3339 text of that
  time; the commit event of \<^verbatim>\<open>RepoHandler\<close> for the same commit carries the RFC3339
  text.
\<close>

theorem commits_endpoint_date_is_not_RFC3339:
  "CommitsHandler (stored_world (sample_repo (Inr sample_refs) [Inr commit_A])) ''demo''
     = JsonBody (JArray [JObject [(''hash'', JString ''a1''),
                                  (''author'', JString ''Ada''),
                                  (''date'', JString ''2024-03-05 14:07:09 +0530 +0530''),
                                  (''message'', JString ''first'')]])
   \<and> Format_RFC3339 (When (Author commit_A)) = ''2024-03-05T14:07:09+05:30''
   \<and> commitData commit_A
       = JObject [(''hash'', JString ''a1''),
                  (''author'', JString ''Ada''),
                  (''email'', JString ''ada@example.com''),
                  (''message'', JString ''first''),
                  (''date'', JString ''2024-03-05T14:07:09+05:30''),
                  (''modifications'', JArray [])]"
  by (simp add: CommitsHandler_def getRepo_stored)
    (simp add: sample_repo_def commit_entry_def commitData_def commit_A_def sample_commit_def
      sample_time_String sample_time_RFC3339)

text \<open>
  Claim C10. When the walk hands no commit to the callback, \<^verbatim>\<open>CommitsHandler\<close>
  encodes its nil slice, so the body is JSON \<^verbatim>\<open>null\<close>; when no reference is a branch,
  \<^verbatim>\<open>BranchesHandler\<close> encodes its allocated empty slice, so the body is the empty
  array.
\<close>

theorem empty_history_is_null:
  assumes "getRepo wd repoID = Inr (repo, ref)"
    and "Log repo (ref_Hash ref) = Inr iter" and "yielded iter = []"
    and "References repo = Inr refs" and "filter IsBranch (map ref_Name refs) = []"
  shows "CommitsHandler wd repoID = JsonBody JNull
       \<and> BranchesHandler wd repoID = JsonBody (JArray [])"
proof -
  have "IsBranch = (\<lambda>n. strings_HasPrefix n ''refs/heads/'')"
    by (simp add: fun_eq_iff IsBranch_def)
  with assms(5) have "filter (\<lambda>n. strings_HasPrefix n ''refs/heads/'') (map ref_Name refs) = []"
    by simp
  then have "foldl (\<lambda>branches ref.
            if IsBranch (ref_Name ref) then go_append branches (Short (ref_Name ref))
            else branches) (Some []) refs = Some []"
    using foldl_branches [of "[]" refs] by simp
  then show ?thesis
    using assms by (simp add: CommitsHandler_def BranchesHandler_def ForEach_yielded)
qed

theorem empty_history_is_null_witness:
  "CommitsHandler (stored_world (sample_repo (Inr [\<lparr>ref_Name = ''refs/tags/v1'', ref_Hash = ''a1''\<rparr>]) []))
     ''demo'' = JsonBody JNull
   \<and> BranchesHandler (stored_world (sample_repo (Inr [\<lparr>ref_Name = ''refs/tags/v1'', ref_Hash = ''a1''\<rparr>]) []))
       ''demo'' = JsonBody (JArray [])"
  using empty_history_is_null
    [of "stored_world (sample_repo (Inr [\<lparr>ref_Name = ''refs/tags/v1'', ref_Hash = ''a1''\<rparr>]) [])"
        "''demo''" "sample_repo (Inr [\<lparr>ref_Name = ''refs/tags/v1'', ref_Hash = ''a1''\<rparr>]) []"
        "\<lparr>ref_Name = ''refs/heads/main'', ref_Hash = ''c3''\<rparr>" "[]"
        "[\<lparr>ref_Name = ''refs/tags/v1'', ref_Hash = ''a1''\<rparr>]"]
  by (simp add: getRepo_stored)
    (simp add: sample_repo_def IsBranch_def strings_HasPrefix_def)

lemma acquisition_is_two_steps:
  "acquire_step url (fst (acquire_step url wd (Start w))) (snd (acquire_step url wd (Start w)))
     = (case materialize (check_missing wd (filepath_Join ''repos'' (repoID_of url))) wd url
               (repoID_of url) w of
          (w', wd', repo) \<Rightarrow> (wd', Finished w' repo))"
  by simp

lemma RepoHandler_world:
  assumes "Method r = ''POST''" and "decoded_RepoURL r = Some url"
  shows "snd (RepoHandler wd r w) =
     fst (acquire_step url wd
            (Checked (check_missing wd (filepath_Join ''repos'' (repoID_of url)))
               (sendSSEMessage (session_headers w) ''status''
                  (message_repoId ''Starting repository processing'' (repoID_of url)))))"
  using assms
  by (simp add: RepoHandler_def session_headers_def Let_def split: prod.splits option.splits)

text \<open>
  Claim C3, as the code has it. Nothing guards the check of line 74 and the clone
  that follows it. Two requests for the same identifier, on a storage that does not
  hold it yet, run one clone when the second request starts after the first has
  finished: the second finds the directory and opens it, and both hold the repository
  stored under the one path. When both checks come before either clone, both
  requests call \<^verbatim>\<open>git.PlainClone\<close> on that path; the first call leaves the repository
  there, the second is refused and its request ends with no repository.
\<close>

theorem sequential_requests_clone_once:
  assumes "dirs wd (filepath_Join ''repos'' (repoID_of url1)) = None"
    and "remote wd url1 = Inr repo"
    and "repoID_of url2 = repoID_of url1"
  shows "(case interleave url1 url2 [False, False, True, True] (wd, Start w1, Start w2) of
            (wd', t1, t2) \<Rightarrow>
              clone_log wd' = clone_log wd @ [filepath_Join ''repos'' (repoID_of url1)]
              \<and> handle_of t1 = Some repo \<and> handle_of t2 = Some repo)
       \<and> (case interleave url1 url2 [False, True, False, True] (wd, Start w1, Start w2) of
            (wd', t1, t2) \<Rightarrow>
              clone_log wd' = clone_log wd @ [filepath_Join ''repos'' (repoID_of url1),
                                              filepath_Join ''repos'' (repoID_of url1)]
              \<and> handle_of t1 = Some repo \<and> handle_of t2 = None)"
  using assms
  by (simp add: check_missing_def stat_IsNotExist_def materialize_def PlainClone_def
      PlainOpen_def Let_def)

text \<open>
  Claim C3 as stated fails: two requests for \<^verbatim>\<open>demo\<close> whose checks both run before
  either clone make two \<^verbatim>\<open>git.PlainClone\<close> calls on \<^verbatim>\<open>repos/demo\<close>, and the second
  request ends with an \<^verbatim>\<open>error\<close> event and no repository.
\<close>

theorem racing_requests_clone_twice:
  "clone_log (fst (interleave sample_url sample_url [False, True, False, True]
       (empty_world (sample_repo (Inr sample_refs) [Inr commit_A]),
        Start (fresh_writer None), Start (fresh_writer None))))
     = [''repos/demo'', ''repos/demo'']
   \<and> handle_of (snd (snd (interleave sample_url sample_url [False, True, False, True]
       (empty_world (sample_repo (Inr sample_refs) [Inr commit_A]),
        Start (fresh_writer None), Start (fresh_writer None))))) = None
   \<and> map fst (attempted (case snd (snd (interleave sample_url sample_url [False, True, False, True]
       (empty_world (sample_repo (Inr sample_refs) [Inr commit_A]),
        Start (fresh_writer None), Start (fresh_writer None)))) of
          Finished w repo \<Rightarrow> w | Checked m w \<Rightarrow> w | Start w \<Rightarrow> w))
     = [''status'', ''error'']"
  by (simp add: check_missing_def stat_IsNotExist_def materialize_def PlainClone_def
      PlainOpen_def Let_def sample_repoID sample_repoPath empty_world_def sendSSEMessage_def
      fresh_writer_def)

theorem sequential_requests_clone_once_witness:
  "(case interleave sample_url sample_url [False, False, True, True]
           (empty_world (sample_repo (Inr sample_refs) [Inr commit_A]),
            Start (fresh_writer None), Start (fresh_writer None)) of
      (wd', t1, t2) \<Rightarrow>
        clone_log wd' = [''repos/demo'']
        \<and> handle_of t1 = Some (sample_repo (Inr sample_refs) [Inr commit_A])
        \<and> handle_of t2 = Some (sample_repo (Inr sample_refs) [Inr commit_A]))"
  using sequential_requests_clone_once
    [of "empty_world (sample_repo (Inr sample_refs) [Inr commit_A])" sample_url
        "sample_repo (Inr sample_refs) [Inr commit_A]" sample_url
        "fresh_writer None" "fresh_writer None"]
  by (simp add: sample_repoID sample_repoPath empty_world_def)

end
